theory Spec2Isabelle
  imports Complex_Main "HOL-Library.Word"
begin

unbundle bit_operations_syntax

section \<open>Values, errors and the byte-buffer collaborators\<close>

text \<open>
  A shallow embedding of \<^verbatim>\<open>lib/filter.js\<close> (the BIP37 bloom filter of bitcore).
  Bytes are 8-bit words, a \<^verbatim>\<open>Buffer\<close> is a list of bytes. Integral JavaScript numbers
  are \<open>int\<close>. A thrown exception is the \<open>Inl\<close> branch of a sum.
\<close>

type_synonym byte = "8 word"
type_synonym Buffer = "byte list"

datatype error = TypeError string | RangeError string

definition bind_e :: "error + 'a \<Rightarrow> ('a \<Rightarrow> error + 'b) \<Rightarrow> error + 'b" where
  "bind_e r k = (case r of Inl e \<Rightarrow> Inl e | Inr x \<Rightarrow> k x)"

subsection \<open>BufferReader\<close>

text \<open>
  \<^verbatim>\<open>bitcore/lib/encoding/bufferreader\<close> is a cursor over a Node \<^verbatim>\<open>Buffer\<close>: every read
  delegates to the Buffer's own \<^verbatim>\<open>readUInt8\<close> / \<^verbatim>\<open>readUInt32LE\<close> at \<^verbatim>\<open>pos\<close> and advances
  \<^verbatim>\<open>pos\<close>. Node throws when the read would pass the end of the buffer.
\<close>

record BufferReader =
  buf :: Buffer
  pos :: nat

definition new_BufferReader :: "Buffer \<Rightarrow> BufferReader" where
  "new_BufferReader b = \<lparr>buf = b, pos = 0\<rparr>"

definition readUInt8 :: "BufferReader \<Rightarrow> error + (byte \<times> BufferReader)" where
  "readUInt8 br =
     (if pos br < length (buf br)
      then Inr (buf br ! pos br, br\<lparr>pos := pos br + 1\<rparr>)
      else Inl (RangeError ''index out of range''))"

definition readUInt32LE :: "BufferReader \<Rightarrow> error + (int \<times> BufferReader)" where
  "readUInt32LE br =
     (if pos br + 4 \<le> length (buf br)
      then Inr (uint (buf br ! pos br)
                + 256 * uint (buf br ! (pos br + 1))
                + 65536 * uint (buf br ! (pos br + 2))
                + 16777216 * uint (buf br ! (pos br + 3)),
                br\<lparr>pos := pos br + 4\<rparr>)
      else Inl (RangeError ''index out of range''))"

text \<open>\<^verbatim>\<open>new BufferReader(b).readReverse()\<close>: the whole buffer, byte-reversed.\<close>

definition readReverse :: "BufferReader \<Rightarrow> Buffer" where
  "readReverse br = rev (drop (pos br) (buf br))"

subsection \<open>BufferWriter\<close>

text \<open>
  \<^verbatim>\<open>bitcore/lib/encoding/bufferwriter\<close> collects buffers and \<^verbatim>\<open>concat()\<close> joins them. Each
  write allocates a fresh Buffer and calls Node's \<^verbatim>\<open>writeUInt8\<close> / \<^verbatim>\<open>writeUInt32LE\<close> on it,
  which throws when the value does not fit the field (the kind of the exception has
  changed between Node releases; every release throws).
\<close>

type_synonym BufferWriter = "Buffer list"

definition new_BufferWriter :: BufferWriter where
  "new_BufferWriter = []"

definition writeUInt8 :: "int \<Rightarrow> BufferWriter \<Rightarrow> error + BufferWriter" where
  "writeUInt8 n bw =
     (if 0 \<le> n \<and> n \<le> 255
      then Inr (bw @ [[word_of_int n]])
      else Inl (RangeError ''value is out of bounds''))"

definition writeUInt32LE :: "int \<Rightarrow> BufferWriter \<Rightarrow> error + BufferWriter" where
  "writeUInt32LE n bw =
     (if 0 \<le> n \<and> n \<le> 4294967295
      then Inr (bw @ [[word_of_int n,
                       word_of_int (n div 256),
                       word_of_int (n div 65536),
                       word_of_int (n div 16777216)]])
      else Inl (RangeError ''value is out of bounds''))"

definition concat_bw :: "BufferWriter \<Rightarrow> Buffer" where
  "concat_bw bw = concat bw"

section \<open>The Filter object\<close>

text \<open>
  \<^verbatim>\<open>vData\<close> is a plain JavaScript array whose elements are numbers in 0..255 (it is filled
  by \<^verbatim>\<open>push(0)\<close>, by \<^verbatim>\<open>push(br.readUInt8())\<close> and by \<^verbatim>\<open>|=\<close> with a one-bit mask below 256).
  The other three fields are numbers.
\<close>

record Filter =
  vData :: "byte list"
  nHashFuncs :: int
  nTweak :: int
  nFlags :: int

text \<open>
  The argument object of the constructor. A field is \<open>None\<close> when the object has no usable
  value there (\<^verbatim>\<open>undefined\<close>, or \<^verbatim>\<open>NaN\<close> for a number: both are falsy).
\<close>

record info =
  info_vData :: "byte list option"
  info_nHashFuncs :: "int option"
  info_nTweak :: "int option"
  info_nFlags :: "int option"

definition BLOOM_UPDATE_NONE :: int where "BLOOM_UPDATE_NONE = 0"
definition BLOOM_UPDATE_ALL :: int where "BLOOM_UPDATE_ALL = 1"
definition BLOOM_UPDATE_P2PUBKEY_ONLY :: int where "BLOOM_UPDATE_P2PUBKEY_ONLY = 2"
definition BLOOM_UPDATE_MASK :: int where "BLOOM_UPDATE_MASK = 3"
definition MAX_BLOOM_FILTER_SIZE :: int where "MAX_BLOOM_FILTER_SIZE = 36000"
definition MAX_HASH_FUNCS :: int where "MAX_HASH_FUNCS = 50"
definition MIN_HASH_FUNCS :: int where "MIN_HASH_FUNCS = 1"
definition LN2SQUARED :: real where "LN2SQUARED = (ln 2) ^ 2"
definition LN2 :: real where "LN2 = ln 2"

text \<open>\<^verbatim>\<open>x || d\<close> on a number: \<^verbatim>\<open>undefined\<close>, \<^verbatim>\<open>NaN\<close> and 0 are falsy.\<close>

definition or_default :: "int option \<Rightarrow> int \<Rightarrow> int" where
  "or_default x d = (case x of None \<Rightarrow> d | Some n \<Rightarrow> if n = 0 then d else n)"

text \<open>
  \<^verbatim>\<open>function Filter(arg)\<close>. The argument is \<open>None\<close> when it is not an object. An array,
  also an empty one, is truthy, so the first check only fails on a missing \<^verbatim>\<open>vData\<close>.
\<close>

definition new_Filter :: "info option \<Rightarrow> error + Filter" where
  "new_Filter arg =
     (case arg of
        None \<Rightarrow> Inl (TypeError ''Unrecognized argument'')
      | Some a \<Rightarrow>
          (case info_vData a of
             None \<Rightarrow> Inl (TypeError ''Data object should include filter data vData'')
           | Some v \<Rightarrow>
               (case info_nHashFuncs a of
                  None \<Rightarrow>
                    Inl (TypeError ''Data object should include number of hash functions nHashFuncs'')
                | Some n \<Rightarrow>
                    if n = 0
                    then Inl (TypeError ''Data object should include number of hash functions nHashFuncs'')
                    else Inr \<lparr>vData = v, nHashFuncs = n,
                              nTweak = or_default (info_nTweak a) 0,
                              nFlags = or_default (info_nFlags a) BLOOM_UPDATE_NONE\<rparr>)))"

subsection \<open>Decoding\<close>

text \<open>The loop \<^verbatim>\<open>for (i = 0; i < length; i++) info.vData.push(br.readUInt8())\<close>,
  by the number of rounds left.\<close>

fun read_vData :: "nat \<Rightarrow> BufferReader \<Rightarrow> byte list \<Rightarrow> error + (byte list \<times> BufferReader)" where
  "read_vData 0 br acc = Inr (acc, br)"
| "read_vData (Suc n) br acc =
     bind_e (readUInt8 br) (\<lambda>(b, br'). read_vData n br' (acc @ [b]))"

definition transformBufferReader :: "BufferReader \<Rightarrow> error + info" where
  "transformBufferReader br0 =
     bind_e (readUInt8 br0) (\<lambda>(len, br1).
     bind_e (read_vData (unat len) br1 []) (\<lambda>(v, br2).
     bind_e (readUInt32LE br2) (\<lambda>(nh, br3).
     bind_e (readUInt32LE br3) (\<lambda>(nt, br4).
     bind_e (readUInt8 br4) (\<lambda>(nf, br5).
       Inr \<lparr>info_vData = Some v, info_nHashFuncs = Some nh,
            info_nTweak = Some nt, info_nFlags = Some (uint nf)\<rparr>)))))"

definition fromBuffer :: "Buffer \<Rightarrow> error + Filter" where
  "fromBuffer buffer =
     bind_e (transformBufferReader (new_BufferReader buffer)) (\<lambda>decoded. new_Filter (Some decoded))"

subsection \<open>Encoding\<close>

text \<open>The loop \<^verbatim>\<open>for (i = 0; i < this.vData.length; i++) bw.writeUInt8(this.vData[i])\<close>.\<close>

fun write_vData :: "byte list \<Rightarrow> BufferWriter \<Rightarrow> error + BufferWriter" where
  "write_vData [] bw = Inr bw"
| "write_vData (b # bs) bw = bind_e (writeUInt8 (uint b) bw) (write_vData bs)"

definition toBufferWriter :: "Filter \<Rightarrow> BufferWriter option \<Rightarrow> error + BufferWriter" where
  "toBufferWriter f bw_arg =
     (let bw = (case bw_arg of None \<Rightarrow> new_BufferWriter | Some w \<Rightarrow> w) in
      bind_e (writeUInt8 (int (length (vData f))) bw) (\<lambda>bw.
      bind_e (write_vData (vData f) bw) (\<lambda>bw.
      bind_e (writeUInt32LE (nHashFuncs f) bw) (\<lambda>bw.
      bind_e (writeUInt32LE (nTweak f) bw) (\<lambda>bw.
      writeUInt8 (nFlags f) bw)))))"

definition toBuffer :: "Filter \<Rightarrow> error + Buffer" where
  "toBuffer f = bind_e (toBufferWriter f None) (\<lambda>bw. Inr (concat_bw bw))"

text \<open>Encoding followed by decoding.\<close>

definition roundtrip :: "Filter \<Rightarrow> error + Filter" where
  "roundtrip f = bind_e (toBuffer f) fromBuffer"


section \<open>The hasher\<close>

text \<open>
  Modelled from the spec: \<^verbatim>\<open>lib/murmurhash3.js\<close>, the 32-bit MurmurHash3 that \<^verbatim>\<open>hash\<close>
  calls, is not among the source files. The definition follows section 4.1 of the
  specification (constants, 4-byte little-endian blocks, a tail of 1 to 3 bytes mixed
  without the multiply-add step, the length and the avalanche at the end) and reproduces
  the reference vectors of \<^verbatim>\<open>test/index.js\<close>; the last shift of the avalanche is by 16,
  as those vectors require. A 32-bit value is a natural number below \<open>2^32\<close> and the
  wrap-around is written out.
\<close>

definition mul32 :: "nat \<Rightarrow> nat \<Rightarrow> nat" where
  "mul32 a b = (a * b) mod 2 ^ 32"

definition rotl32 :: "nat \<Rightarrow> nat \<Rightarrow> nat" where
  "rotl32 x r = (x * 2 ^ r) mod 2 ^ 32 + x div 2 ^ (32 - r)"

definition mix_k :: "nat \<Rightarrow> nat" where
  "mix_k k = mul32 (rotl32 (mul32 k 0xcc9e2d51) 15) 0x1b873593"

definition mix_h :: "nat \<Rightarrow> nat \<Rightarrow> nat" where
  "mix_h h k = (rotl32 (h XOR mix_k k) 13 * 5 + 0xe6546b64) mod 2 ^ 32"

definition le_word :: "byte list \<Rightarrow> nat" where
  "le_word bs = foldr (\<lambda>b w. unat b + 256 * w) bs 0"

fun murmur_body :: "nat \<Rightarrow> byte list \<Rightarrow> nat" where
  "murmur_body h (b0 # b1 # b2 # b3 # rest) =
     murmur_body (mix_h h (le_word [b0, b1, b2, b3])) rest"
| "murmur_body h [] = h"
| "murmur_body h rest = h XOR mix_k (le_word rest)"

definition xorshift :: "nat \<Rightarrow> nat \<Rightarrow> nat" where
  "xorshift n h = h XOR h div 2 ^ n"

definition fmix :: "nat \<Rightarrow> nat" where
  "fmix h = xorshift 16 (mul32 (xorshift 13 (mul32 (xorshift 16 h) 0x85ebca6b)) 0xc2b2ae35)"

definition MurmurHash3 :: "nat \<Rightarrow> Buffer \<Rightarrow> nat" where
  "MurmurHash3 seed data = fmix (murmur_body seed data XOR length data)"

section \<open>Insertion and membership\<close>

text \<open>
  \<^verbatim>\<open>h % (this.vData.length * 8)\<close>: both operands are non-negative integers; the result is
  \<^verbatim>\<open>NaN\<close> (here \<open>None\<close>) when the divisor is 0.
\<close>

definition js_mod :: "nat \<Rightarrow> nat \<Rightarrow> nat option" where
  "js_mod a b = (if b = 0 then None else Some (a mod b))"

text \<open>
  \<^verbatim>\<open>Filter.prototype.hash\<close>. The seed \<^verbatim>\<open>(nHashNum * 0xFBA4C795 + nTweak) & 0xFFFFFFFF\<close> is
  the low 32 bits of the sum (the sum is exact in double precision whenever
  \<^verbatim>\<open>nHashNum\<close> is below \<open>2^20\<close> and the tweak is a 32-bit value).
\<close>

definition hash :: "Filter \<Rightarrow> int \<Rightarrow> Buffer \<Rightarrow> nat option" where
  "hash f nHashNum vDataToHash =
     (let h = MurmurHash3 (nat ((nHashNum * 0xFBA4C795 + nTweak f) AND 0xFFFFFFFF)) vDataToHash
      in js_mod h (length (vData f) * 8))"

text \<open>
  The operand of \<^verbatim>\<open>>>\<close> and \<^verbatim>\<open>&\<close>: \<^verbatim>\<open>NaN\<close> is converted to 0, and an index below
  \<open>2^31\<close> (every index of an array shorter than \<open>2^28\<close> bytes) to itself.
\<close>

definition ToInt32 :: "nat option \<Rightarrow> nat" where
  "ToInt32 x = (case x of None \<Rightarrow> 0 | Some n \<Rightarrow> n)"

text \<open>
  \<^verbatim>\<open>v[k] |= position\<close> on a JavaScript array. In range it updates the element. Out of
  range the element reads \<^verbatim>\<open>undefined\<close>, \<^verbatim>\<open>undefined | position\<close> is \<^verbatim>\<open>position\<close>, and the
  assignment extends the array up to index \<open>k\<close> (the elements skipped over are holes,
  which this code would read as 0; here only \<open>k = 0\<close> on the empty array arises).
\<close>

definition or_assign :: "byte list \<Rightarrow> nat \<Rightarrow> byte \<Rightarrow> byte list" where
  "or_assign v k position =
     (if k < length v then v[k := v ! k OR position]
      else v @ replicate (k - length v) 0 @ [position])"

text \<open>\<^verbatim>\<open>v[k] & position\<close>: an element out of range reads \<^verbatim>\<open>undefined\<close>, and the result is 0.\<close>

definition and_read :: "byte list \<Rightarrow> nat \<Rightarrow> byte \<Rightarrow> byte" where
  "and_read v k position = (if k < length v then v ! k AND position else 0)"

text \<open>One round of the loop of \<^verbatim>\<open>insert\<close>.\<close>

definition insert_step :: "Filter \<Rightarrow> int \<Rightarrow> Buffer \<Rightarrow> Filter" where
  "insert_step f i data =
     (let index = ToInt32 (hash f i data);
          position = push_bit (7 AND index) (1 :: byte)
      in f\<lparr>vData := or_assign (vData f) (drop_bit 3 index) position\<rparr>)"

function insert_loop :: "Filter \<Rightarrow> Buffer \<Rightarrow> int \<Rightarrow> Filter" where
  "insert_loop f data i =
     (if i < nHashFuncs f then insert_loop (insert_step f i data) data (i + 1) else f)"
  by pat_completeness auto
termination
  by (relation "measure (\<lambda>(f, data, i). nat (nHashFuncs f - i))")
     (auto simp: insert_step_def Let_def)

declare insert_loop.simps [simp del]

definition insert_f :: "Filter \<Rightarrow> Buffer \<Rightarrow> Filter" where
  "insert_f f data = insert_loop f data 0"

text \<open>The test \<^verbatim>\<open>!(this.vData[index >> 3] & (1 << (7 & index)))\<close> of one round of the loop
  of \<^verbatim>\<open>contains\<close>.\<close>

definition bit_missing :: "Filter \<Rightarrow> int \<Rightarrow> Buffer \<Rightarrow> bool" where
  "bit_missing f i data =
     (let index = ToInt32 (hash f i data)
      in and_read (vData f) (drop_bit 3 index) (push_bit (7 AND index) 1) = 0)"

function contains_loop :: "Filter \<Rightarrow> Buffer \<Rightarrow> int \<Rightarrow> bool" where
  "contains_loop f data i =
     (if i < nHashFuncs f
      then (if bit_missing f i data then False else contains_loop f data (i + 1))
      else True)"
  by pat_completeness auto
termination
  by (relation "measure (\<lambda>(f, data, i). nat (nHashFuncs f - i))") auto

declare contains_loop.simps [simp del]

definition contains :: "Filter \<Rightarrow> Buffer \<Rightarrow> bool" where
  "contains f data = (if length (vData f) = 0 then False else contains_loop f data 0)"

definition clear :: "Filter \<Rightarrow> Filter" where
  "clear f = f\<lparr>vData := []\<rparr>"

text \<open>Bit number \<open>idx\<close> of the bit array: bit \<open>idx mod 8\<close> of byte \<open>idx div 8\<close>.\<close>

definition bit_set :: "byte list \<Rightarrow> nat \<Rightarrow> bool" where
  "bit_set v idx = (idx div 8 < length v \<and> bit (v ! (idx div 8)) (idx mod 8))"

section \<open>Sizing a new filter\<close>

text \<open>
  \<^verbatim>\<open>create\<close> computes in double precision. The model computes in the reals, so it ignores
  rounding, and keeps the special values that decide the control flow: \<^verbatim>\<open>NaN\<close> and the
  two infinities. The sign of a zero is not kept (a zero divisor counts as \<open>+0\<close>).
\<close>

datatype number = NaN | NegInf | PosInf | Fin real

fun num_mul :: "number \<Rightarrow> number \<Rightarrow> number" where
  "num_mul (Fin a) (Fin b) = Fin (a * b)"
| "num_mul NaN y = NaN"
| "num_mul x NaN = NaN"
| "num_mul (Fin a) y =
     (if a = 0 then NaN else if (0 < a) = (y = PosInf) then PosInf else NegInf)"
| "num_mul x (Fin b) =
     (if b = 0 then NaN else if (0 < b) = (x = PosInf) then PosInf else NegInf)"
| "num_mul x y = (if x = y then PosInf else NegInf)"

fun num_div :: "number \<Rightarrow> number \<Rightarrow> number" where
  "num_div (Fin a) (Fin b) =
     (if b = 0 then (if a = 0 then NaN else if 0 < a then PosInf else NegInf)
      else Fin (a / b))"
| "num_div NaN y = NaN"
| "num_div x NaN = NaN"
| "num_div (Fin a) y = Fin 0"
| "num_div x (Fin b) = (if (0 \<le> b) = (x = PosInf) then PosInf else NegInf)"
| "num_div x y = NaN"

fun num_less :: "number \<Rightarrow> number \<Rightarrow> bool" where
  "num_less (Fin a) (Fin b) = (a < b)"
| "num_less NaN y = False"
| "num_less x NaN = False"
| "num_less NegInf y = (y \<noteq> NegInf)"
| "num_less x PosInf = (x \<noteq> PosInf)"
| "num_less x y = False"

definition Math_log :: "real \<Rightarrow> number" where
  "Math_log x = (if x < 0 then NaN else if x = 0 then NegInf else Fin (ln x))"

definition Math_floor :: "number \<Rightarrow> number" where
  "Math_floor x = (case x of Fin a \<Rightarrow> Fin (of_int \<lfloor>a\<rfloor>) | _ \<Rightarrow> x)"

text \<open>
  The loop \<^verbatim>\<open>for (i = 0; i < filterSize; i++) info.vData.push(0)\<close>. \<open>rounds\<close> is how often
  its test holds: never for \<^verbatim>\<open>NaN\<close>, \<open>-Infinity\<close> or a number below 1. \<open>+Infinity\<close> does not
  reach the loop, being replaced by \<^verbatim>\<open>max\<close> before.
\<close>

definition rounds :: "number \<Rightarrow> nat" where
  "rounds filterSize = (case filterSize of Fin r \<Rightarrow> nat \<lceil>r\<rceil> | _ \<Rightarrow> 0)"

fun push_zeros :: "nat \<Rightarrow> byte list \<Rightarrow> byte list" where
  "push_zeros 0 v = v"
| "push_zeros (Suc n) v = push_zeros n (v @ [0])"

text \<open>A number stored in the argument object of the constructor.\<close>

definition to_field :: "number \<Rightarrow> int option" where
  "to_field x = (case x of Fin a \<Rightarrow> Some \<lfloor>a\<rfloor> | _ \<Rightarrow> None)"

definition create :: "real \<Rightarrow> real \<Rightarrow> int option \<Rightarrow> int option \<Rightarrow> error + Filter" where
  "create elements falsePositiveRate nTweak_arg nFlags_arg =
     (let size_bits = num_mul (num_mul (num_div (Fin (- 1)) (Fin LN2SQUARED)) (Fin elements))
                         (Math_log falsePositiveRate);
          filterSize = Math_floor (num_div size_bits (Fin 8));
          max_size = Fin (of_int (MAX_BLOOM_FILTER_SIZE * 8));
          filterSize = (if num_less max_size filterSize then max_size else filterSize);
          v = push_zeros (rounds filterSize) [];
          n = Math_floor (num_mul (num_div (Fin (of_nat (length v * 8))) (Fin elements))
                                  (Fin LN2));
          n = (if num_less (Fin (of_int MAX_HASH_FUNCS)) n then Fin (of_int MAX_HASH_FUNCS) else n);
          n = (if num_less n (Fin (of_int MIN_HASH_FUNCS)) then Fin (of_int MIN_HASH_FUNCS) else n)
      in new_Filter (Some \<lparr>info_vData = Some v, info_nHashFuncs = to_field n,
                           info_nTweak = nTweak_arg, info_nFlags = nFlags_arg\<rparr>))"

section \<open>Objects and JSON\<close>

definition fromObject :: "info \<Rightarrow> error + Filter" where
  "fromObject data =
     new_Filter (Some \<lparr>info_vData = info_vData data, info_nHashFuncs = info_nHashFuncs data,
                       info_nTweak = info_nTweak data, info_nFlags = info_nFlags data\<rparr>)"

definition toObject :: "Filter \<Rightarrow> info" where
  "toObject f = \<lparr>info_vData = Some (vData f), info_nHashFuncs = Some (nHashFuncs f),
                 info_nTweak = Some (nTweak f), info_nFlags = Some (nFlags f)\<rparr>"

function show_nat :: "nat \<Rightarrow> string" where
  "show_nat n =
     (if n < 10 then [char_of (48 + n)]
      else show_nat (n div 10) @ [char_of (48 + n mod 10)])"
  by pat_completeness auto
termination
  by (relation "measure id") auto

declare show_nat.simps [simp del]

definition show_int :: "int \<Rightarrow> string" where
  "show_int i = (if i < 0 then CHR ''-'' # show_nat (nat (- i)) else show_nat (nat i))"

fun commas :: "string list \<Rightarrow> string" where
  "commas [] = []"
| "commas [s] = s"
| "commas (s # rest) = s @ CHR '','' # commas rest"

definition json_member :: "string \<Rightarrow> string option \<Rightarrow> string list" where
  "json_member key val =
     (case val of None \<Rightarrow> [] | Some s \<Rightarrow> [CHR 0x22 # key @ CHR 0x22 # CHR '':'' # s])"

text \<open>\<^verbatim>\<open>JSON.stringify\<close> on the object of \<^verbatim>\<open>toObject\<close>; a member that is \<^verbatim>\<open>undefined\<close>
  is left out.\<close>

definition JSON_stringify :: "info \<Rightarrow> string" where
  "JSON_stringify obj =
     CHR ''{'' #
     commas (json_member ''vData''
               (map_option (\<lambda>v. CHR ''['' # commas (map (\<lambda>b. show_nat (unat b)) v) @ '']'')
                  (info_vData obj))
             @ json_member ''nHashFuncs'' (map_option show_int (info_nHashFuncs obj))
             @ json_member ''nTweak'' (map_option show_int (info_nTweak obj))
             @ json_member ''nFlags'' (map_option show_int (info_nFlags obj)))
     @ ''}''"

text \<open>
  \<^verbatim>\<open>toJSON\<close> evaluates \<^verbatim>\<open>JSON.stringify(this.toObject())\<close> as an expression statement and
  has no \<^verbatim>\<open>return\<close>: the call yields \<^verbatim>\<open>undefined\<close>, here \<open>None\<close>.
\<close>

definition toJSON :: "Filter \<Rightarrow> string option" where
  "toJSON f = (let s = JSON_stringify (toObject f) in None)"

section \<open>Matching a transaction\<close>

text \<open>
  The transaction and its scripts belong to bitcore. The model keeps what
  \<^verbatim>\<open>isRelevantAndUpdate\<close> asks of them: the result of \<^verbatim>\<open>_getHash()\<close>, for a script its
  chunks, the results of the three classification predicates and of
  \<^verbatim>\<open>getPublicKeyHash()\<close>, for an input the id of the transaction it spends.
\<close>

record Chunk =
  chunk_buf :: "Buffer option"

record Script =
  chunks :: "Chunk list"
  isPublicKeyHashOut :: bool
  getPublicKeyHash :: "Buffer option"
  isPublicKeyOut :: bool
  isMultiSigOut :: bool

record Output =
  output_script :: Script

record Input =
  prevTxId :: Buffer
  input_script :: Script

record Transaction =
  getHash :: Buffer
  outputs :: "Output list"
  inputs :: "Input list"

text \<open>The loop over the outputs: \<open>h\<close> is the local \<^verbatim>\<open>hash\<close>, the result is \<^verbatim>\<open>found\<close> and
  the filter as the inserts have left it.\<close>

fun outputs_loop :: "Filter \<Rightarrow> Buffer \<Rightarrow> Output list \<Rightarrow> bool \<Rightarrow> bool \<times> Filter" where
  "outputs_loop f h [] found = (found, f)"
| "outputs_loop f h (output # rest) found =
     (let script = output_script output in
      if isPublicKeyHashOut script then
        (case getPublicKeyHash script of
           None \<Rightarrow> outputs_loop f h rest found
         | Some scriptPublicKey \<Rightarrow>
             if contains f scriptPublicKey then
               (if (nFlags f) AND BLOOM_UPDATE_MASK = BLOOM_UPDATE_ALL
                then outputs_loop (insert_f f h) h rest True
                else if (nFlags f) AND BLOOM_UPDATE_MASK = BLOOM_UPDATE_P2PUBKEY_ONLY
                then (if isPublicKeyOut script \<or> isMultiSigOut script
                      then outputs_loop (insert_f f h) h rest True
                      else outputs_loop f h rest True)
                else outputs_loop f h rest True)
             else outputs_loop f h rest found)
      else outputs_loop f h rest found)"

text \<open>
  The inner loop \<^verbatim>\<open>for (s = 0; s < chunks.length; s++)\<close> of input number \<open>i\<close>, by the
  number of rounds left. Every round reads \<^verbatim>\<open>chunks[i].buf\<close>; \<^verbatim>\<open>chunks[i]\<close> is
  \<^verbatim>\<open>undefined\<close> when \<open>i\<close> is out of range and reading its property throws. \<open>Inr True\<close> is
  the \<^verbatim>\<open>return true\<close>, \<open>Inr False\<close> the end of the loop.
\<close>

fun chunks_loop :: "Filter \<Rightarrow> Chunk list \<Rightarrow> nat \<Rightarrow> nat \<Rightarrow> error + bool" where
  "chunks_loop f cs i 0 = Inr False"
| "chunks_loop f cs i (Suc n) =
     (if i < length cs
      then (case chunk_buf (cs ! i) of
              None \<Rightarrow> chunks_loop f cs i n
            | Some buffer \<Rightarrow>
                if length buffer \<noteq> 0 \<and> contains f buffer then Inr True
                else chunks_loop f cs i n)
      else Inl (TypeError ''Cannot read property buf of undefined''))"

text \<open>The loop over the inputs; \<open>i\<close> is the index of the first input of the list.\<close>

fun inputs_loop :: "Filter \<Rightarrow> Input list \<Rightarrow> nat \<Rightarrow> error + bool" where
  "inputs_loop f [] i = Inr False"
| "inputs_loop f (input # rest) i =
     (let reversedTxPrevId = readReverse (new_BufferReader (prevTxId input)) in
      if contains f (prevTxId input) \<or> contains f reversedTxPrevId then Inr True
      else
        (let cs = chunks (input_script input) in
         bind_e (chunks_loop f cs i (length cs)) (\<lambda>matched.
           if matched then Inr True else inputs_loop f rest (i + 1))))"

text \<open>
  \<^verbatim>\<open>isRelevantAndUpdate\<close>. The argument is \<open>None\<close> when it is not an instance of
  \<^verbatim>\<open>Transaction\<close>. The filter is returned with the result, as the call has left it.
\<close>

definition isRelevantAndUpdate :: "Filter \<Rightarrow> Transaction option \<Rightarrow> (error + bool) \<times> Filter" where
  "isRelevantAndUpdate f arg =
     (case arg of
        None \<Rightarrow> (Inl (TypeError ''First argument must be an instance of Transaction''), f)
      | Some transaction \<Rightarrow>
          if length (vData f) = 0 then (Inr False, f)
          else
            (let reversed = getHash transaction;
                 h = readReverse (new_BufferReader reversed);
                 found = (contains f h \<or> contains f reversed);
                 (found, f') = outputs_loop f h (outputs transaction) found
             in if found then (Inr True, f')
                else (inputs_loop f' (inputs transaction) 0, f')))"

section \<open>Buffers of the test suite\<close>

text \<open>The three 20-byte values that \<^verbatim>\<open>test/index.js\<close> inserts (\<^verbatim>\<open>a\<close>, \<^verbatim>\<open>c\<close> and \<^verbatim>\<open>d\<close> there).\<close>

definition test_a :: Buffer where
  "test_a = [0x99, 0x10, 0x8a, 0xd8, 0xed, 0x9b, 0xb6, 0x27, 0x4d, 0x39,
             0x80, 0xba, 0xb5, 0xa8, 0x5c, 0x04, 0x8f, 0x09, 0x50, 0xc8]"

definition test_c :: Buffer where
  "test_c = [0xb5, 0xa2, 0xc7, 0x86, 0xd9, 0xef, 0x46, 0x58, 0x28, 0x7c,
             0xed, 0x59, 0x14, 0xb3, 0x7a, 0x1b, 0x4a, 0xa3, 0x2e, 0xee]"

definition test_d :: Buffer where
  "test_d = [0xb9, 0x30, 0x06, 0x70, 0xb4, 0xc5, 0x36, 0x6e, 0x95, 0xb2,
             0x69, 0x9e, 0x8b, 0x18, 0xbc, 0x75, 0xe5, 0xf7, 0x29, 0xc5]"

section \<open>A transaction for the matching examples\<close>

text \<open>
  The transaction that the relevance tests of \<^verbatim>\<open>test/index.js\<close> name by its parts: the
  hash \<^verbatim>\<open>_getHash()\<close> returns (the tests give it in both byte orders), one input that
  spends an output of transaction \<^verbatim>\<open>90c1...260b\<close> and whose unlocking script pushes a
  signature and then a public key, and two pay-to-public-key-hash outputs.
\<close>

definition fx_pubkey :: Buffer where
  "fx_pubkey =
     [0x04, 0x6d, 0x11, 0xfe, 0xe5, 0x1b, 0x0e, 0x60, 0x66, 0x6d, 0x50, 0x49, 0xa9, 0x10,
     0x1a, 0x72, 0x74, 0x1d, 0xf4, 0x80, 0xb9, 0x6e, 0xe2, 0x64, 0x88, 0xa4, 0xd3, 0x46,
     0x6b, 0x95, 0xc9, 0xa4, 0x0a, 0xc5, 0xee, 0xef, 0x87, 0xe1, 0x0a, 0x5c, 0xd3, 0x36,
     0xc1, 0x9a, 0x84, 0x56, 0x5f, 0x80, 0xfa, 0x6c, 0x54, 0x79, 0x57, 0xb7, 0x70, 0x0f,
     0xf4, 0xdf, 0xbd, 0xef, 0xe7, 0x60, 0x36, 0xc3, 0x39]"

definition fx_signature :: Buffer where
  "fx_signature =
     [0x30, 0x45, 0x02, 0x20, 0x07, 0x0a, 0xca, 0x44, 0x50, 0x6c, 0x5c, 0xef, 0x3a, 0x16,
     0xed, 0x51, 0x9d, 0x7c, 0x3c, 0x39, 0xf8, 0xaa, 0xb1, 0x92, 0xc4, 0xe1, 0xc9, 0x0d,
     0x06, 0x5f, 0x37, 0xb8, 0xa4, 0xaf, 0x61, 0x41, 0x02, 0x21, 0x00, 0xa8, 0xe1, 0x60,
     0xb8, 0x56, 0xc2, 0xd4, 0x3d, 0x27, 0xd8, 0xfb, 0xa7, 0x1e, 0x5a, 0xef, 0x64, 0x05,
     0xb8, 0x64, 0x3a, 0xc4, 0xcb, 0x7c, 0xb3, 0xc4, 0x62, 0xac, 0xed, 0x7f, 0x14, 0x71,
     0x1a, 0x01]"

definition fx_hash :: Buffer where
  "fx_hash =
     [0x6b, 0xff, 0x7f, 0xcd, 0x4f, 0x85, 0x65, 0xef, 0x40, 0x6d, 0xd5, 0xd6, 0x3d, 0x4f,
     0xf9, 0x4f, 0x31, 0x8f, 0xe8, 0x20, 0x27, 0xfd, 0x4d, 0xc4, 0x51, 0xb0, 0x44, 0x74,
     0x01, 0x9f, 0x74, 0xb4]"

definition fx_prevTxId :: Buffer where
  "fx_prevTxId =
     [0x90, 0xc1, 0x22, 0xd7, 0x07, 0x86, 0xe8, 0x99, 0x52, 0x9d, 0x71, 0xdb, 0xeb, 0xa9,
     0x1b, 0xa2, 0x16, 0x98, 0x2f, 0xb6, 0xba, 0x58, 0xf3, 0xbd, 0xaa, 0xb6, 0x5e, 0x73,
     0xb7, 0xe9, 0x26, 0x0b]"

definition fx_address1 :: Buffer where
  "fx_address1 =
     [0x04, 0x94, 0x3f, 0xdd, 0x50, 0x80, 0x53, 0xc7, 0x50, 0x00, 0x10, 0x6d, 0x3b, 0xc6,
     0xe2, 0x75, 0x4d, 0xbc, 0xff, 0x19]"

definition fx_address2 :: Buffer where
  "fx_address2 =
     [0xa2, 0x66, 0x43, 0x6d, 0x29, 0x65, 0x54, 0x76, 0x08, 0xb9, 0xe1, 0x5d, 0x90, 0x32,
     0xa7, 0xb9, 0xd6, 0x4f, 0xa4, 0x31]"

definition p2pkh :: "Buffer \<Rightarrow> Output" where
  "p2pkh h = \<lparr>output_script =
     \<lparr>chunks = [\<lparr>chunk_buf = None\<rparr>, \<lparr>chunk_buf = None\<rparr>, \<lparr>chunk_buf = Some h\<rparr>,
                 \<lparr>chunk_buf = None\<rparr>, \<lparr>chunk_buf = None\<rparr>],
      isPublicKeyHashOut = True, getPublicKeyHash = Some h,
      isPublicKeyOut = False, isMultiSigOut = False\<rparr>\<rparr>"

definition fx_input :: Input where
  "fx_input = \<lparr>prevTxId = fx_prevTxId, input_script =
     \<lparr>chunks = [\<lparr>chunk_buf = Some fx_signature\<rparr>, \<lparr>chunk_buf = Some fx_pubkey\<rparr>],
      isPublicKeyHashOut = False, getPublicKeyHash = None,
      isPublicKeyOut = False, isMultiSigOut = False\<rparr>\<rparr>"

definition fx_tx :: Transaction where
  "fx_tx = \<lparr>getHash = fx_hash, outputs = [p2pkh fx_address1, p2pkh fx_address2],
            inputs = [fx_input]\<rparr>"

text \<open>A filter of 4 bytes and 2 hash functions (the size the sizing test lists for
  \<^verbatim>\<open>create(10, 0.2)\<close>), with update flag \<^verbatim>\<open>BLOOM_UPDATE_ALL\<close>, into which the public key
  of the input has been inserted.\<close>

definition fx_filter :: Filter where
  "fx_filter = insert_f \<lparr>vData = [0, 0, 0, 0], nHashFuncs = 2, nTweak = 0, nFlags = 1\<rparr> fx_pubkey"

section \<open>Serialization: basic facts\<close>

lemma bind_e_Inl [simp]: "bind_e (Inl e) k = Inl e"
  by (simp add: bind_e_def)

lemma bind_e_Inr [simp]: "bind_e (Inr x) k = k x"
  by (simp add: bind_e_def)

lemma bind_e_eq_Inr:
  "bind_e r k = Inr y \<longleftrightarrow> (\<exists>x. r = Inr x \<and> k x = Inr y)"
  by (cases r) simp_all

lemma write_vData_ok: "write_vData bs bw = Inr (bw @ map (\<lambda>b. [b]) bs)"
proof (induction bs arbitrary: bw)
  case Nil
  show ?case by simp
next
  case (Cons b bs)
  have "0 \<le> uint b" "uint b \<le> 255"
    using uint_bounded [of b] by simp_all
  then show ?case
    using Cons.IH by (simp add: writeUInt8_def)
qed

lemma concat_singletons: "concat (map (\<lambda>b. [b]) bs) = bs"
  by (induction bs) simp_all

lemma read_vData_ok:
  "pos br + n \<le> length (buf br) \<Longrightarrow>
   read_vData n br acc =
     Inr (acc @ take n (drop (pos br) (buf br)), br\<lparr>pos := pos br + n\<rparr>)"
proof (induction n arbitrary: br acc)
  case 0
  show ?case by simp
next
  case (Suc n)
  let ?br' = "br\<lparr>pos := pos br + 1\<rparr>"
  have lt: "pos br < length (buf br)" using Suc.prems by simp
  have step: "readUInt8 br = Inr (buf br ! pos br, ?br')"
    using lt by (simp add: readUInt8_def)
  have "pos ?br' + n \<le> length (buf ?br')" using Suc.prems by simp
  from Suc.IH [OF this, of "acc @ [buf br ! pos br]"]
  have "read_vData n ?br' (acc @ [buf br ! pos br]) =
        Inr (acc @ [buf br ! pos br] @ take n (drop (Suc (pos br)) (buf br)),
             br\<lparr>pos := pos br + Suc n\<rparr>)"
    by simp
  moreover have "take (Suc n) (drop (pos br) (buf br)) =
                 buf br ! pos br # take n (drop (Suc (pos br)) (buf br))"
    using lt by (simp add: Cons_nth_drop_Suc [symmetric])
  ultimately show ?case
    using step by simp
qed

lemma le32_decode:
  fixes n :: int
  assumes "0 \<le> n" "n \<le> 4294967295"
  shows "uint (word_of_int n :: byte) + 256 * uint (word_of_int (n div 256) :: byte)
         + 65536 * uint (word_of_int (n div 65536) :: byte)
         + 16777216 * uint (word_of_int (n div 16777216) :: byte) = n"
proof -
  define q1 where "q1 = n div 256"
  define q2 where "q2 = q1 div 256"
  define q3 where "q3 = q2 div 256"
  have d2: "n div 65536 = q2"
    unfolding q2_def q1_def by (simp add: zdiv_zmult2_eq)
  have d3: "n div 16777216 = q3"
    unfolding q3_def q2_def q1_def by (simp add: zdiv_zmult2_eq)
  have e0: "n = n mod 256 + 256 * q1" unfolding q1_def by simp
  have e1: "q1 = q1 mod 256 + 256 * q2" unfolding q2_def by simp
  have e2: "q2 = q2 mod 256 + 256 * q3" unfolding q3_def by simp
  have "0 \<le> q3" "q3 < 256"
    using assms d3 [symmetric] by simp_all
  then have e3: "q3 mod 256 = q3" by simp
  have "n = n mod 256 + 256 * (q1 mod 256) + 65536 * (q2 mod 256) + 16777216 * (q3 mod 256)"
    using e0 e1 e2 e3 by linarith
  then show ?thesis
    unfolding d2 d3 q1_def [symmetric] by (simp add: uint_word_of_int)
qed

lemma toBuffer_ok:
  assumes "length (vData f) \<le> 255" "0 \<le> nHashFuncs f" "nHashFuncs f \<le> 4294967295"
    "0 \<le> nTweak f" "nTweak f \<le> 4294967295" "0 \<le> nFlags f" "nFlags f \<le> 255"
  shows "toBuffer f =
     Inr (word_of_int (int (length (vData f))) # vData f @
          [word_of_int (nHashFuncs f), word_of_int (nHashFuncs f div 256),
           word_of_int (nHashFuncs f div 65536), word_of_int (nHashFuncs f div 16777216),
           word_of_int (nTweak f), word_of_int (nTweak f div 256),
           word_of_int (nTweak f div 65536), word_of_int (nTweak f div 16777216),
           word_of_int (nFlags f)])"
  using assms
  by (simp add: toBuffer_def toBufferWriter_def new_BufferWriter_def writeUInt8_def
      writeUInt32LE_def write_vData_ok concat_bw_def concat_singletons)

lemma toBuffer_too_long:
  "255 < length (vData f) \<Longrightarrow> toBuffer f = Inl (RangeError ''value is out of bounds'')"
  by (simp add: toBuffer_def toBufferWriter_def writeUInt8_def)

lemma transform_ok:
  assumes "length v = unat len"
  shows "transformBufferReader
           (new_BufferReader (len # v @ [a0, a1, a2, a3, t0, t1, t2, t3, fl] @ rest)) =
     Inr \<lparr>info_vData = Some v,
          info_nHashFuncs = Some (uint a0 + 256 * uint a1 + 65536 * uint a2 + 16777216 * uint a3),
          info_nTweak = Some (uint t0 + 256 * uint t1 + 65536 * uint t2 + 16777216 * uint t3),
          info_nFlags = Some (uint fl)\<rparr>"
proof -
  let ?b = "len # v @ [a0, a1, a2, a3, t0, t1, t2, t3, fl] @ rest"
  let ?br1 = "\<lparr>buf = ?b, pos = 1\<rparr>"
  have r0: "readUInt8 (new_BufferReader ?b) = Inr (len, ?br1)"
    by (simp add: readUInt8_def new_BufferReader_def)
  have r1: "read_vData (length v) ?br1 [] = Inr (v, \<lparr>buf = ?b, pos = Suc (length v)\<rparr>)"
    using read_vData_ok [of ?br1 "length v" "[]"] by simp
  have n: "?b ! (Suc (length v) + k) = ([a0, a1, a2, a3, t0, t1, t2, t3, fl] @ rest) ! k" for k
    by (simp add: nth_append)
  have r2: "readUInt32LE \<lparr>buf = ?b, pos = Suc (length v)\<rparr> =
      Inr (uint a0 + 256 * uint a1 + 65536 * uint a2 + 16777216 * uint a3,
           \<lparr>buf = ?b, pos = Suc (length v) + 4\<rparr>)"
    using n [of 0] n [of 1] n [of 2] n [of 3] by (simp add: readUInt32LE_def)
  have r3: "readUInt32LE \<lparr>buf = ?b, pos = Suc (length v) + 4\<rparr> =
      Inr (uint t0 + 256 * uint t1 + 65536 * uint t2 + 16777216 * uint t3,
           \<lparr>buf = ?b, pos = Suc (length v) + 8\<rparr>)"
    using n [of 4] n [of 5] n [of 6] n [of 7] by (simp add: readUInt32LE_def add.assoc)
  have r4: "readUInt8 \<lparr>buf = ?b, pos = Suc (length v) + 8\<rparr> =
      Inr (fl, \<lparr>buf = ?b, pos = Suc (length v) + 8 + 1\<rparr>)"
    using n [of 8] by (simp add: readUInt8_def)
  show ?thesis
    unfolding transformBufferReader_def
    by (simp only: r0 bind_e_Inr prod.case assms [symmetric] r1 r2 r3 r4)
qed

text \<open>The same up to the hash-function count, whatever follows it.\<close>

lemma transform_count:
  assumes "length v = unat len"
  shows "transformBufferReader (new_BufferReader (len # v @ [a0, a1, a2, a3] @ rest)) =
     bind_e (readUInt32LE \<lparr>buf = len # v @ [a0, a1, a2, a3] @ rest, pos = Suc (length v) + 4\<rparr>)
       (\<lambda>(nt, br4). bind_e (readUInt8 br4) (\<lambda>(nf, br5).
          Inr \<lparr>info_vData = Some v,
               info_nHashFuncs =
                 Some (uint a0 + 256 * uint a1 + 65536 * uint a2 + 16777216 * uint a3),
               info_nTweak = Some nt, info_nFlags = Some (uint nf)\<rparr>))"
proof -
  let ?b = "len # v @ [a0, a1, a2, a3] @ rest"
  let ?br1 = "\<lparr>buf = ?b, pos = 1\<rparr>"
  have r0: "readUInt8 (new_BufferReader ?b) = Inr (len, ?br1)"
    by (simp add: readUInt8_def new_BufferReader_def)
  have r1: "read_vData (length v) ?br1 [] = Inr (v, \<lparr>buf = ?b, pos = Suc (length v)\<rparr>)"
    using read_vData_ok [of ?br1 "length v" "[]"] by simp
  have n: "?b ! (Suc (length v) + k) = ([a0, a1, a2, a3] @ rest) ! k" for k
    by (simp add: nth_append)
  have r2: "readUInt32LE \<lparr>buf = ?b, pos = Suc (length v)\<rparr> =
      Inr (uint a0 + 256 * uint a1 + 65536 * uint a2 + 16777216 * uint a3,
           \<lparr>buf = ?b, pos = Suc (length v) + 4\<rparr>)"
    using n [of 0] n [of 1] n [of 2] n [of 3] by (simp add: readUInt32LE_def)
  show ?thesis
    unfolding transformBufferReader_def
    by (simp only: r0 bind_e_Inr prod.case assms [symmetric] r1 r2)
qed

lemma new_Filter_Inr:
  "new_Filter arg = Inr f \<Longrightarrow> nHashFuncs f \<noteq> 0"
  by (auto simp: new_Filter_def split: option.splits if_splits)

section \<open>Insertion and membership: basic facts\<close>


lemma and_7: "(7 :: nat) AND n = n mod 8"
proof -
  have "n AND mask 3 = n mod 2 ^ 3"
    by (simp only: take_bit_eq_mask [symmetric] take_bit_eq_mod)
  then show ?thesis
    by (simp add: and.commute mask_numeral)
qed

lemma drop_3: "drop_bit 3 (n :: nat) = n div 8"
  by (simp add: drop_bit_eq_div)

lemma bit_missing_iff: "bit_missing f i d \<longleftrightarrow> \<not> bit_set (vData f) (ToInt32 (hash f i d))"
  by (simp add: bit_missing_def bit_set_def and_read_def Let_def and_7 drop_3
      and_exp_eq_0_iff_not_bit)

lemma hash_in_range:
  "vData f \<noteq> [] \<Longrightarrow> ToInt32 (hash f i d) < length (vData f) * 8"
  by (simp add: hash_def js_mod_def ToInt32_def Let_def)

lemma hash_cong:
  "length (vData g) = length (vData f) \<Longrightarrow> nTweak g = nTweak f \<Longrightarrow> hash g i d = hash f i d"
  by (simp add: hash_def)

lemma bit_set_or_assign:
  assumes "idx < length v * 8"
  shows "bit_set (or_assign v (idx div 8) (push_bit (idx mod 8) 1)) j \<longleftrightarrow> j = idx \<or> bit_set v j"
proof -
  have k: "idx div 8 < length v" using assms by simp
  have eq: "j = idx \<longleftrightarrow> j div 8 = idx div 8 \<and> j mod 8 = idx mod 8"
    by (metis div_mult_mod_eq)
  have m: "idx mod 8 < LENGTH(8)" by simp
  have b: "bit (2 ^ (idx mod 8) :: byte) n \<longleftrightarrow> n = idx mod 8" for n
    using m by (auto simp: bit_exp_iff)
  show ?thesis
    using k
    by (auto simp: bit_set_def or_assign_def eq nth_list_update bit_or_iff b)
qed

lemma insert_step_fields [simp]:
  "nHashFuncs (insert_step f i d) = nHashFuncs f"
  "nTweak (insert_step f i d) = nTweak f"
  "nFlags (insert_step f i d) = nFlags f"
  by (simp_all add: insert_step_def Let_def)

lemma insert_step_length:
  "vData f \<noteq> [] \<Longrightarrow> length (vData (insert_step f i d)) = length (vData f)"
  using hash_in_range [of f i d]
  by (simp add: insert_step_def Let_def or_assign_def drop_3)

lemma insert_step_bits:
  assumes "vData f \<noteq> []"
  shows "bit_set (vData (insert_step f i d)) j \<longleftrightarrow>
         j = ToInt32 (hash f i d) \<or> bit_set (vData f) j"
  using bit_set_or_assign [OF hash_in_range [OF assms, of i d], of j]
  by (simp add: insert_step_def Let_def and_7 drop_3)

lemma insert_loop_fields':
  "nHashFuncs (insert_loop f d i) = nHashFuncs f \<and>
   nTweak (insert_loop f d i) = nTweak f \<and>
   nFlags (insert_loop f d i) = nFlags f"
proof (induction f d i rule: insert_loop.induct)
  case (1 f d i)
  show ?case
  proof (cases "i < nHashFuncs f")
    case True
    then show ?thesis
      using "1.IH" [OF True] by (subst (1 2 3) insert_loop.simps) simp
  next
    case False
    then show ?thesis by (subst (1 2 3) insert_loop.simps) simp
  qed
qed

lemma insert_loop_fields [simp]:
  "nHashFuncs (insert_loop f d i) = nHashFuncs f"
  "nTweak (insert_loop f d i) = nTweak f"
  "nFlags (insert_loop f d i) = nFlags f"
  using insert_loop_fields' [of f d i] by simp_all

lemma insert_loop_length:
  "vData f \<noteq> [] \<Longrightarrow> length (vData (insert_loop f d i)) = length (vData f)"
proof (induction f d i rule: insert_loop.induct)
  case (1 f d i)
  show ?case
  proof (cases "i < nHashFuncs f")
    case True
    have ne: "vData (insert_step f i d) \<noteq> []"
      using insert_step_length [OF "1.prems", of i d] "1.prems" by auto
    show ?thesis
      using "1.IH" [OF True ne] True insert_step_length [OF "1.prems", of i d]
      by (subst insert_loop.simps) simp
  next
    case False
    then show ?thesis by (subst insert_loop.simps) simp
  qed
qed

lemma insert_loop_bits:
  "vData f \<noteq> [] \<Longrightarrow>
   bit_set (vData (insert_loop f d i)) j \<longleftrightarrow>
     bit_set (vData f) j \<or> (\<exists>k. i \<le> k \<and> k < nHashFuncs f \<and> j = ToInt32 (hash f k d))"
proof (induction f d i rule: insert_loop.induct)
  case (1 f d i)
  show ?case
  proof (cases "i < nHashFuncs f")
    case True
    let ?g = "insert_step f i d"
    have len: "length (vData ?g) = length (vData f)"
      by (rule insert_step_length [OF "1.prems"])
    then have ne: "vData ?g \<noteq> []" using "1.prems" by auto
    have h: "hash ?g k d = hash f k d" for k
      by (rule hash_cong) (simp_all add: len)
    have "bit_set (vData (insert_loop f d i)) j = bit_set (vData (insert_loop ?g d (i + 1))) j"
      using True by (subst insert_loop.simps) simp
    also have "\<dots> \<longleftrightarrow> bit_set (vData ?g) j \<or>
        (\<exists>k. i + 1 \<le> k \<and> k < nHashFuncs f \<and> j = ToInt32 (hash f k d))"
      using "1.IH" [OF True ne] by (simp add: h)
    also have "\<dots> \<longleftrightarrow> bit_set (vData f) j \<or>
        (\<exists>k. i \<le> k \<and> k < nHashFuncs f \<and> j = ToInt32 (hash f k d))"
    proof -
      have "(\<exists>k. i \<le> k \<and> k < nHashFuncs f \<and> j = ToInt32 (hash f k d)) \<longleftrightarrow>
            j = ToInt32 (hash f i d) \<or>
            (\<exists>k. i + 1 \<le> k \<and> k < nHashFuncs f \<and> j = ToInt32 (hash f k d))"
        using True by (metis add1_zle_eq order_le_less)
      then show ?thesis
        using insert_step_bits [OF "1.prems", of i d j] by blast
    qed
    finally show ?thesis .
  next
    case False
    then show ?thesis by (subst insert_loop.simps) auto
  qed
qed

lemma contains_loop_iff:
  "contains_loop f d i \<longleftrightarrow>
     (\<forall>k. i \<le> k \<and> k < nHashFuncs f \<longrightarrow> bit_set (vData f) (ToInt32 (hash f k d)))"
proof (induction f d i rule: contains_loop.induct)
  case (1 f d i)
  show ?case
  proof (cases "i < nHashFuncs f")
    case True
    show ?thesis
    proof (cases "bit_missing f i d")
      case True
      then show ?thesis
        using \<open>i < nHashFuncs f\<close>
        by (subst contains_loop.simps) (auto simp: bit_missing_iff)
    next
      case False
      have "contains_loop f d i = contains_loop f d (i + 1)"
        using True False by (subst contains_loop.simps) simp
      also have "\<dots> \<longleftrightarrow>
          (\<forall>k. i + 1 \<le> k \<and> k < nHashFuncs f \<longrightarrow> bit_set (vData f) (ToInt32 (hash f k d)))"
        using "1.IH" [OF True False] .
      also have "\<dots> \<longleftrightarrow>
          (\<forall>k. i \<le> k \<and> k < nHashFuncs f \<longrightarrow> bit_set (vData f) (ToInt32 (hash f k d)))"
        using False by (metis add1_zle_eq order_le_less bit_missing_iff)
      finally show ?thesis .
    qed
  next
    case False
    then show ?thesis by (subst contains_loop.simps) auto
  qed
qed

lemma contains_iff:
  "contains f d \<longleftrightarrow>
     vData f \<noteq> [] \<and>
     (\<forall>k. 0 \<le> k \<and> k < nHashFuncs f \<longrightarrow> bit_set (vData f) (ToInt32 (hash f k d)))"
  by (simp add: contains_def contains_loop_iff)

lemma bit_set_ext:
  assumes "length v = length w" "\<And>j. bit_set v j = bit_set w j"
  shows "v = w"
proof (rule nth_equalityI)
  show "length v = length w" by fact
next
  fix k assume k: "k < length v"
  show "v ! k = w ! k"
  proof (rule bit_word_eqI)
    fix n assume "n < LENGTH(8)"
    then have n: "n < 8" by simp
    have "bit_set v (k * 8 + n) = bit_set w (k * 8 + n)" by (rule assms(2))
    then show "bit (v ! k) n = bit (w ! k) n"
      using k n assms(1) by (simp add: bit_set_def)
  qed
qed

lemma insert_f_fields [simp]:
  "nHashFuncs (insert_f f d) = nHashFuncs f"
  "nTweak (insert_f f d) = nTweak f"
  "nFlags (insert_f f d) = nFlags f"
  by (simp_all add: insert_f_def)

lemma insert_f_length:
  "vData f \<noteq> [] \<Longrightarrow> length (vData (insert_f f d)) = length (vData f)"
  by (simp add: insert_f_def insert_loop_length)

lemma insert_f_nonempty:
  "vData f \<noteq> [] \<Longrightarrow> vData (insert_f f d) \<noteq> []"
  using insert_f_length [of f d] by auto

lemma insert_f_bits:
  "vData f \<noteq> [] \<Longrightarrow>
   bit_set (vData (insert_f f d)) j \<longleftrightarrow>
     bit_set (vData f) j \<or> (\<exists>k. 0 \<le> k \<and> k < nHashFuncs f \<and> j = ToInt32 (hash f k d))"
  by (simp add: insert_f_def insert_loop_bits)

lemma hash_insert_f:
  "vData f \<noteq> [] \<Longrightarrow> hash (insert_f f d) k x = hash f k x"
  by (rule hash_cong) (simp_all add: insert_f_length)

lemma contains_insert_f:
  assumes "vData f \<noteq> []"
  shows "contains (insert_f f x) x"
  using assms
  by (auto simp: contains_iff insert_f_nonempty insert_f_bits hash_insert_f)

lemma contains_mono:
  assumes "vData f \<noteq> []" "contains f x"
  shows "contains (insert_f f y) x"
  using assms
  by (auto simp: contains_iff insert_f_nonempty insert_f_bits hash_insert_f)

lemma contains_foldl:
  "vData f \<noteq> [] \<Longrightarrow> contains f x \<Longrightarrow> contains (foldl insert_f f ys) x"
proof (induction ys arbitrary: f)
  case Nil
  then show ?case by simp
next
  case (Cons y ys)
  have "vData (insert_f f y) \<noteq> []"
    by (rule insert_f_nonempty [OF Cons.prems(1)])
  moreover have "contains (insert_f f y) x"
    by (rule contains_mono [OF Cons.prems])
  ultimately show ?case
    using Cons.IH by simp
qed

text \<open>On a filter that is not empty a second insert of the same data changes nothing.\<close>

lemma insert_f_idem_nonempty:
  assumes "vData f \<noteq> []"
  shows "insert_f (insert_f f x) x = insert_f f x"
proof -
  let ?g = "insert_f f x"
  have ne: "vData ?g \<noteq> []" by (rule insert_f_nonempty [OF assms])
  have "vData (insert_f ?g x) = vData ?g"
  proof (rule bit_set_ext)
    show "length (vData (insert_f ?g x)) = length (vData ?g)"
      by (rule insert_f_length [OF ne])
  next
    fix j
    show "bit_set (vData (insert_f ?g x)) j = bit_set (vData ?g) j"
      using assms
      by (auto simp: insert_f_bits [OF ne] insert_f_bits [OF assms] hash_insert_f)
  qed
  then show ?thesis
    by (intro Filter.equality) simp_all
qed

text \<open>On the empty filter the first round of \<^verbatim>\<open>insert\<close> computes the index \<^verbatim>\<open>NaN\<close>
  and writes the mask 1 to \<^verbatim>\<open>vData[0]\<close>, which extends the array.\<close>

lemma insert_step_empty:
  "vData f = [] \<Longrightarrow> vData (insert_step f i d) = [1]"
  by (simp add: insert_step_def hash_def js_mod_def ToInt32_def or_assign_def Let_def)

lemma insert_f_empty_length:
  assumes "vData f = []" "0 < nHashFuncs f"
  shows "length (vData (insert_f f d)) = 1"
proof -
  have "insert_f f d = insert_loop (insert_step f 0 d) d (0 + 1)"
    using assms(2) unfolding insert_f_def by (subst insert_loop.simps) simp
  moreover have "vData (insert_step f 0 d) \<noteq> []"
    by (simp add: insert_step_empty [OF assms(1)])
  ultimately show ?thesis
    by (simp add: insert_loop_length insert_step_empty [OF assms(1)])
qed

lemma insert_f_empty_bit0:
  assumes "vData f = []" "0 < nHashFuncs f"
  shows "bit_set (vData (insert_f f d)) 0"
proof -
  have e: "insert_f f d = insert_loop (insert_step f 0 d) d (0 + 1)"
    using assms(2) unfolding insert_f_def by (subst insert_loop.simps) simp
  have ne: "vData (insert_step f 0 d) \<noteq> []"
    by (simp add: insert_step_empty [OF assms(1)])
  have "bit_set (vData (insert_step f 0 d)) 0"
    by (simp add: insert_step_empty [OF assms(1)] bit_set_def)
  then show ?thesis
    unfolding e by (simp add: insert_loop_bits [OF ne])
qed

section \<open>Evaluation on concrete data\<close>

lemma Suc_Suc_0: "Suc (Suc 0) = 2"
  by simp

lemmas murmur_eval = MurmurHash3_def fmix_def xorshift_def mix_k_def mix_h_def rotl32_def
  mul32_def le_word_def Suc_Suc_0

lemmas hash_eval = hash_def js_mod_def ToInt32_def

lemmas insert_eval = insert_f_def insert_loop.simps insert_step_def or_assign_def

lemmas contains_eval = contains_def contains_loop.simps bit_missing_def and_read_def

text \<open>The reference vectors of \<^verbatim>\<open>test/index.js\<close> (expected value, seed, data).\<close>

lemma MurmurHash3_reference_vectors:
  "MurmurHash3 0x00000000 [] = 0x00000000"
  "MurmurHash3 0xFBA4C795 [] = 0x6a396f08"
  "MurmurHash3 0xffffffff [] = 0x81f16f39"
  "MurmurHash3 0x00000000 [0x00] = 0x514e28b7"
  "MurmurHash3 0xFBA4C795 [0x00] = 0xea3f0b17"
  "MurmurHash3 0x00000000 [0xff] = 0xfd6cf10d"
  "MurmurHash3 0x00000000 [0x00, 0x11] = 0x16c6b7ab"
  "MurmurHash3 0x00000000 [0x00, 0x11, 0x22] = 0x8eb51c3d"
  "MurmurHash3 0x00000000 [0x00, 0x11, 0x22, 0x33] = 0xb4471bf8"
  "MurmurHash3 0x00000000 [0x00, 0x11, 0x22, 0x33, 0x44] = 0xe2301fa8"
  "MurmurHash3 0x00000000 [0x00, 0x11, 0x22, 0x33, 0x44, 0x55] = 0xfc2e4a15"
  "MurmurHash3 0x00000000 [0x00, 0x11, 0x22, 0x33, 0x44, 0x55, 0x66] = 0xb074502c"
  "MurmurHash3 0x00000000 [0x00, 0x11, 0x22, 0x33, 0x44, 0x55, 0x66, 0x77] = 0x8034d2a0"
  "MurmurHash3 0x00000000 [0x00, 0x11, 0x22, 0x33, 0x44, 0x55, 0x66, 0x77, 0x88] = 0xb4698def"
  by (simp_all add: murmur_eval)

text \<open>The test \<^verbatim>\<open>correctly serialize to a buffer\<close>: three inserts into the filter of
  3 bytes and 5 hash functions, then \<^verbatim>\<open>toBuffer\<close>, give \<^verbatim>\<open>03614e9b050000000000000001\<close>.\<close>

lemma test_inserts:
  "foldl insert_f \<lparr>vData = [0, 0, 0], nHashFuncs = 5, nTweak = 0, nFlags = 1\<rparr>
      [test_a, test_c, test_d]
     = \<lparr>vData = [0x61, 0x4e, 0x9b], nHashFuncs = 5, nTweak = 0, nFlags = 1\<rparr>"
  by (simp add: test_a_def test_c_def test_d_def insert_eval hash_eval murmur_eval)

lemma test_serialize_to_buffer:
  "toBuffer (foldl insert_f \<lparr>vData = [0, 0, 0], nHashFuncs = 5, nTweak = 0, nFlags = 1\<rparr>
      [test_a, test_c, test_d])
   = Inr [0x03, 0x61, 0x4e, 0x9b, 0x05, 0x00, 0x00, 0x00, 0x00, 0x00, 0x00, 0x00, 0x01]"
  unfolding test_inserts by (simp add: toBuffer_ok)

lemma fx_filter_eq:
  "fx_filter = \<lparr>vData = [0x00, 0x02, 0x02, 0x00], nHashFuncs = 2, nTweak = 0, nFlags = 1\<rparr>"
  by (simp add: fx_filter_def fx_pubkey_def insert_eval hash_eval murmur_eval)

lemma fx_not_contains:
  "\<not> contains fx_filter fx_hash"
  "\<not> contains fx_filter (rev fx_hash)"
  "\<not> contains fx_filter fx_address1"
  "\<not> contains fx_filter fx_address2"
  "\<not> contains fx_filter fx_prevTxId"
  "\<not> contains fx_filter (rev fx_prevTxId)"
  "\<not> contains fx_filter fx_signature"
  by (simp_all add: fx_filter_eq fx_hash_def fx_address1_def fx_address2_def fx_prevTxId_def
      fx_signature_def contains_eval hash_eval murmur_eval)

lemma fx_contains_pubkey: "contains fx_filter fx_pubkey"
  unfolding fx_filter_def by (rule contains_insert_f) simp

lemma fx_filter_fields: "nFlags fx_filter = 1" "vData fx_filter \<noteq> []"
  by (simp_all add: fx_filter_eq)

section \<open>Sizing: basic facts\<close>

lemma ln2_bounds: "0 < ln (2::real)" "ln (2::real) \<le> 1"
  using ln_le_minus_one [of "2::real"] by simp_all

lemma LN2SQUARED_pos: "0 < LN2SQUARED"
  using ln2_bounds(1) by (simp add: LN2SQUARED_def)

lemma push_zeros_replicate: "push_zeros n v = v @ replicate n 0"
  by (induction n arbitrary: v) (simp_all add: replicate_append_same)

lemma floor_eighth_negative: "(x::real) < 0 \<Longrightarrow> \<lfloor>x / 8\<rfloor> \<le> 0"
  by (simp add: floor_le_iff)

text \<open>What \<^verbatim>\<open>create\<close> computes when the logarithm is finite and the element count is
  not 0: no special value arises.\<close>

lemma create_finite:
  assumes "0 < p" "e \<noteq> 0"
  shows "create e p t g =
     new_Filter (Some
       \<lparr>info_vData = Some (replicate (nat (min 288000 \<lfloor>- 1 / LN2SQUARED * e * ln p / 8\<rfloor>)) 0),
        info_nHashFuncs = Some (max 1 (min 50
          \<lfloor>real (nat (min 288000 \<lfloor>- 1 / LN2SQUARED * e * ln p / 8\<rfloor>) * 8) / e * LN2\<rfloor>)),
        info_nTweak = t, info_nFlags = g\<rparr>)"
proof -
  define fs where "fs = \<lfloor>- 1 / LN2SQUARED * e * ln p / 8\<rfloor>"
  define len where "len = nat (min 288000 fs)"
  define h where "h = \<lfloor>real (len * 8) / e * LN2\<rfloor>"
  have c: "LN2SQUARED \<noteq> 0" using LN2SQUARED_pos by simp
  have A: "Math_floor (num_div (num_mul (num_mul (num_div (Fin (- 1)) (Fin LN2SQUARED)) (Fin e))
              (Math_log p)) (Fin 8)) = Fin (of_int fs)"
    using c assms(1) by (simp add: Math_log_def Math_floor_def fs_def)
  have B: "(if num_less (Fin (of_int (MAX_BLOOM_FILTER_SIZE * 8))) (Fin (of_int fs))
            then Fin (of_int (MAX_BLOOM_FILTER_SIZE * 8)) else Fin (of_int fs))
           = Fin (of_int (min 288000 fs))"
    by (simp add: MAX_BLOOM_FILTER_SIZE_def min_def)
  have C: "push_zeros (rounds (Fin (of_int (min 288000 fs)))) [] = replicate len 0"
    by (simp add: rounds_def push_zeros_replicate len_def)
  have D: "Math_floor (num_mul (num_div (Fin (of_nat (length (replicate len (0::byte)) * 8)))
              (Fin e)) (Fin LN2)) = Fin (of_int h)"
    using assms(2) by (simp add: Math_floor_def h_def)
  have E: "(if num_less (Fin (of_int MAX_HASH_FUNCS)) (Fin (of_int h))
            then Fin (of_int MAX_HASH_FUNCS) else Fin (of_int h)) = Fin (of_int (min 50 h))"
    by (simp add: MAX_HASH_FUNCS_def min_def)
  have F: "(if num_less (Fin (of_int (min 50 h))) (Fin (of_int MIN_HASH_FUNCS))
            then Fin (of_int MIN_HASH_FUNCS) else Fin (of_int (min 50 h)))
           = Fin (of_int (max 1 (min 50 h)))"
    by (auto simp: MIN_HASH_FUNCS_def max_def min_def)
  have G: "to_field (Fin (of_int (max 1 (min 50 h)))) = Some (max 1 (min 50 h))"
    by (simp add: to_field_def)
  show ?thesis
    unfolding create_def Let_def A B C D E F G
    unfolding h_def len_def fs_def ..
qed

text \<open>With element count 0 the hash-function count is \<^verbatim>\<open>0 / 0\<close>, that is \<^verbatim>\<open>NaN\<close>, which
  both clamps leave alone and the constructor rejects as falsy.\<close>

lemma create_zero:
  "create 0 p t g =
     Inl (TypeError ''Data object should include number of hash functions nHashFuncs'')"
proof -
  have c: "LN2SQUARED \<noteq> 0" using LN2SQUARED_pos by simp
  have "num_mul (num_mul (num_div (Fin (- 1)) (Fin LN2SQUARED)) (Fin 0)) (Math_log p) = NaN \<or>
        num_mul (num_mul (num_div (Fin (- 1)) (Fin LN2SQUARED)) (Fin 0)) (Math_log p) = Fin 0"
    using c by (simp add: Math_log_def)
  then show ?thesis
    by (auto simp: create_def Let_def Math_floor_def rounds_def to_field_def new_Filter_def
        MAX_BLOOM_FILTER_SIZE_def)
qed

text \<open>With a negative element count the size is negative, the loop pushes nothing, and
  the hash-function count 0 is raised to 1.\<close>

lemma create_negative:
  assumes "e < 0" "0 < p" "p < 1"
  shows "create e p t g =
     Inr \<lparr>vData = [], nHashFuncs = 1, nTweak = or_default t 0,
          nFlags = or_default g BLOOM_UPDATE_NONE\<rparr>"
proof -
  have l: "ln p < 0" using assms(2,3) by simp
  have "0 < - 1 / LN2SQUARED * e"
    using LN2SQUARED_pos assms(1) by (simp add: divide_neg_pos)
  then have "- 1 / LN2SQUARED * e * ln p < 0"
    using l by (rule mult_pos_neg)
  then have "\<lfloor>- 1 / LN2SQUARED * e * ln p / 8\<rfloor> \<le> 0"
    by (rule floor_eighth_negative)
  then have r: "nat (min 288000 \<lfloor>- 1 / LN2SQUARED * e * ln p / 8\<rfloor>) = 0"
    by simp
  have e: "e \<noteq> 0" using assms(1) by simp
  show ?thesis
    unfolding create_finite [OF assms(2) e] r
    by (simp add: new_Filter_def)
qed

text \<open>For a positive element count and a rate in (0,1) a filter is returned; its byte
  length is at most \<open>36000 * 8\<close> and its hash-function count is in 1..50.\<close>

lemma create_bounds:
  assumes "0 < e" "0 < p" "p < 1"
  shows "\<exists>f. create e p t g = Inr f \<and> length (vData f) \<le> 288000 \<and>
             1 \<le> nHashFuncs f \<and> nHashFuncs f \<le> 50"
proof -
  have e: "e \<noteq> 0" using assms(1) by simp
  define len where "len = nat (min 288000 \<lfloor>- 1 / LN2SQUARED * e * ln p / 8\<rfloor>)"
  define h where "h = max 1 (min 50 \<lfloor>real (len * 8) / e * LN2\<rfloor>)"
  have len: "len \<le> 288000" unfolding len_def by simp
  have h: "1 \<le> h" "h \<le> 50" unfolding h_def by simp_all
  have "create e p t g =
        new_Filter (Some \<lparr>info_vData = Some (replicate len 0), info_nHashFuncs = Some h,
                            info_nTweak = t, info_nFlags = g\<rparr>)"
    unfolding create_finite [OF assms(2) e] h_def len_def ..
  then show ?thesis
    using len h by (simp add: new_Filter_def)
qed

section \<open>C1: the wire encoding round-trips for filters of at most 255 bytes\<close>

lemma fromBuffer_toBuffer:
  assumes "length (vData f) \<le> 255" "1 \<le> nHashFuncs f" "nHashFuncs f \<le> 4294967295"
    "0 \<le> nTweak f" "nTweak f \<le> 4294967295" "0 \<le> nFlags f" "nFlags f \<le> 255"
  shows "roundtrip f = Inr f"
proof -
  have len: "length (vData f) = unat (word_of_int (int (length (vData f))) :: byte)"
    using assms(1) by (simp add: unat_of_nat)
  have h0: "0 \<le> nHashFuncs f" using assms(2) by simp
  have fl: "uint (word_of_int (nFlags f) :: byte) = nFlags f"
    using assms(6,7) by (simp add: uint_word_of_int)
  have dec: "transformBufferReader (new_BufferReader
       (word_of_int (int (length (vData f))) # vData f @
          [word_of_int (nHashFuncs f), word_of_int (nHashFuncs f div 256),
           word_of_int (nHashFuncs f div 65536), word_of_int (nHashFuncs f div 16777216),
           word_of_int (nTweak f), word_of_int (nTweak f div 256),
           word_of_int (nTweak f div 65536), word_of_int (nTweak f div 16777216),
           word_of_int (nFlags f)] @ [])) =
     Inr \<lparr>info_vData = Some (vData f), info_nHashFuncs = Some (nHashFuncs f),
          info_nTweak = Some (nTweak f), info_nFlags = Some (nFlags f)\<rparr>"
    by (simp only: transform_ok [OF len] le32_decode [OF h0 assms(3)]
        le32_decode [OF assms(4,5)] fl)
  have "new_Filter (Some \<lparr>info_vData = Some (vData f), info_nHashFuncs = Some (nHashFuncs f),
          info_nTweak = Some (nTweak f), info_nFlags = Some (nFlags f)\<rparr>) = Inr f"
    using assms(2) by (simp add: new_Filter_def or_default_def BLOOM_UPDATE_NONE_def)
  then show ?thesis
    using dec toBuffer_ok [OF assms(1) h0 assms(3-7)]
    by (simp add: roundtrip_def fromBuffer_def)
qed

text \<open>
  C1, as stated, asks for \<^verbatim>\<open>fromBuffer(f.toBuffer())\<close> to equal \<open>f\<close> also when \<^verbatim>\<open>vData\<close> is
  longer than 255 bytes. A filter of 256 zero bytes, which the constructor admits, does
  not come back: writing its length into the one-byte prefix fails.
\<close>

theorem roundtrip_256_bytes_counterexample:
  "new_Filter (Some \<lparr>info_vData = Some (replicate 256 0), info_nHashFuncs = Some 1,
                       info_nTweak = Some 0, info_nFlags = Some 0\<rparr>)
     = Inr \<lparr>vData = replicate 256 0, nHashFuncs = 1, nTweak = 0, nFlags = 0\<rparr> \<and>
   roundtrip \<lparr>vData = replicate 256 0, nHashFuncs = 1, nTweak = 0, nFlags = 0\<rparr>
     \<noteq> Inr \<lparr>vData = replicate 256 0, nHashFuncs = 1, nTweak = 0, nFlags = 0\<rparr>"
  by (simp add: new_Filter_def or_default_def BLOOM_UPDATE_NONE_def roundtrip_def toBuffer_def
      toBufferWriter_def writeUInt8_def)

text \<open>
  C1 (amended): for every Filter whose \<^verbatim>\<open>vData\<close> has at most 255 bytes and whose numeric
  fields fit their wire fields (\<^verbatim>\<open>nHashFuncs\<close> in 1..\<open>2^32 - 1\<close>, \<^verbatim>\<open>nTweak\<close> in
  0..\<open>2^32 - 1\<close>, \<^verbatim>\<open>nFlags\<close> in 0..255), decoding the serialization gives a Filter equal
  to it in all four fields. For a \<^verbatim>\<open>vData\<close> longer than 255 bytes \<^verbatim>\<open>toBuffer\<close> raises an
  error: the one-byte length prefix cannot carry the length.
\<close>

theorem roundtrip_within_wire_widths:
  "(length (vData f) \<le> 255 \<and> 1 \<le> nHashFuncs f \<and> nHashFuncs f \<le> 4294967295 \<and>
    0 \<le> nTweak f \<and> nTweak f \<le> 4294967295 \<and> 0 \<le> nFlags f \<and> nFlags f \<le> 255
      \<longrightarrow> roundtrip f = Inr f) \<and>
   (255 < length (vData f) \<longrightarrow> toBuffer f = Inl (RangeError ''value is out of bounds''))"
  using fromBuffer_toBuffer [of f] toBuffer_too_long [of f] by blast

text \<open>Both parts at concrete filters: the three-byte filter of the serialization test
  of \<^verbatim>\<open>test/index.js\<close>, and a filter of 256 bytes.\<close>

theorem roundtrip_within_wire_widths_witness:
  "roundtrip \<lparr>vData = [0x61, 0x4e, 0x9b], nHashFuncs = 5, nTweak = 0, nFlags = 1\<rparr>
     = Inr \<lparr>vData = [0x61, 0x4e, 0x9b], nHashFuncs = 5, nTweak = 0, nFlags = 1\<rparr> \<and>
   toBuffer \<lparr>vData = replicate 256 0, nHashFuncs = 1, nTweak = 0, nFlags = 0\<rparr>
     = Inl (RangeError ''value is out of bounds'')"
  using roundtrip_within_wire_widths
          [of "\<lparr>vData = [0x61, 0x4e, 0x9b], nHashFuncs = 5, nTweak = 0, nFlags = 1\<rparr>"]
        roundtrip_within_wire_widths
          [of "\<lparr>vData = replicate 256 0, nHashFuncs = 1, nTweak = 0, nFlags = 0\<rparr>"]
  by simp

section \<open>C2: the size of a filter made by create\<close>

text \<open>
  C2 says that \<^verbatim>\<open>create\<close> never returns more than 36000 bytes (\<^verbatim>\<open>MAX_BLOOM_FILTER_SIZE\<close>,
  documented in the source as a number of bytes). The code compares the byte count with
  \<^verbatim>\<open>MAX_BLOOM_FILTER_SIZE * 8\<close>: for ten million elements at rate 0.5 it returns a filter
  of 288000 bytes.
\<close>

theorem create_exceeds_max_bloom_filter_size:
  "create 10000000 (1 / 2) None None =
     Inr \<lparr>vData = replicate 288000 0, nHashFuncs = 1, nTweak = 0, nFlags = 0\<rparr> \<and>
   MAX_BLOOM_FILTER_SIZE < int (length (replicate 288000 (0 :: byte)))"
proof -
  have s: "- 1 / LN2SQUARED * 10000000 * ln (1 / 2) = 10000000 / ln (2::real)"
    using ln2_bounds(1) by (simp add: LN2SQUARED_def power2_eq_square ln_div)
  have "(10000000::real) \<le> 10000000 / ln 2"
    using ln2_bounds by (simp add: field_simps)
  then have "(288001::real) \<le> 10000000 / ln 2 / 8" by simp
  then have "288001 \<le> \<lfloor>10000000 / ln (2::real) / 8\<rfloor>" by (simp add: le_floor_iff)
  then have r: "nat (min 288000 \<lfloor>10000000 / ln (2::real) / 8\<rfloor>) = 288000"
    by simp
  have h: "\<lfloor>real (288000 * 8) / 10000000 * LN2\<rfloor> = 0"
    using ln2_bounds by (simp add: floor_eq_iff LN2_def)
  have p: "0 < (1 / 2 :: real)" and e: "(10000000 :: real) \<noteq> 0"
    by simp_all
  have "create 10000000 (1 / 2) None None =
     Inr \<lparr>vData = replicate 288000 0, nHashFuncs = 1, nTweak = 0, nFlags = 0\<rparr>"
    unfolding create_finite [OF p e] s r h
    by (simp add: new_Filter_def or_default_def BLOOM_UPDATE_NONE_def)
  then show ?thesis
    by (simp add: MAX_BLOOM_FILTER_SIZE_def)
qed

section \<open>C3: the script chunks of an input\<close>

text \<open>In the inner loop of the input phase the chunk read is \<^verbatim>\<open>chunks[i]\<close>, \<open>i\<close> being the
  index of the input. When the script has chunks but none at that index, the read
  throws.\<close>

lemma chunks_loop_out_of_range:
  assumes "length cs \<le> i" "cs \<noteq> []"
  shows "chunks_loop f cs i (length cs) =
         Inl (TypeError ''Cannot read property buf of undefined'')"
proof -
  obtain n where "length cs = Suc n"
    using assms(2) by (cases cs) simp_all
  then show ?thesis
    using assms(1) by simp
qed

text \<open>
  C3 says that a transaction is reported relevant when any chunk, at any position, of
  an input's unlocking script is in the filter. In \<open>fx_tx\<close> the second chunk of the only
  input is the public key, the filter contains the public key and nothing else of the
  transaction, and \<^verbatim>\<open>isRelevantAndUpdate\<close> returns false: both rounds of the inner loop
  read chunk 0, the signature.
\<close>

theorem input_script_chunk_missed:
  "chunk_buf (chunks (input_script (inputs fx_tx ! 0)) ! 1) = Some fx_pubkey \<and>
   contains fx_filter fx_pubkey \<and>
   isRelevantAndUpdate fx_filter (Some fx_tx) = (Inr False, fx_filter)"
proof -
  have out: "outputs_loop fx_filter (rev fx_hash) (outputs fx_tx) False = (False, fx_filter)"
    by (simp add: fx_tx_def p2pkh_def fx_not_contains)
  have inp: "inputs_loop fx_filter (inputs fx_tx) 0 = Inr False"
    by (simp add: fx_tx_def fx_input_def readReverse_def new_BufferReader_def fx_not_contains
        numeral_2_eq_2)
  have "isRelevantAndUpdate fx_filter (Some fx_tx) = (Inr False, fx_filter)"
    using out inp
    by (simp add: isRelevantAndUpdate_def fx_filter_fields readReverse_def new_BufferReader_def
        fx_not_contains fx_tx_def)
  then show ?thesis
    by (simp add: fx_contains_pubkey fx_tx_def fx_input_def)
qed

section \<open>C4: insert on an empty filter\<close>

text \<open>
  C4 says that \<^verbatim>\<open>insert\<close> on an empty filter changes nothing. \<^verbatim>\<open>insert\<close> has no guard for
  the empty bit array (\<^verbatim>\<open>contains\<close> has one): for every empty filter with at least one
  hash function and every data, the filter after the call has one byte, with bit 0 set.
\<close>

theorem insert_on_empty_filter_grows:
  assumes "vData f = []" "1 \<le> nHashFuncs f"
  shows "length (vData (insert_f f d)) = 1 \<and> bit_set (vData (insert_f f d)) 0
         \<and> insert_f f d \<noteq> f"
proof -
  have p: "0 < nHashFuncs f" using assms(2) by simp
  have l: "length (vData (insert_f f d)) = 1"
    by (rule insert_f_empty_length [OF assms(1) p])
  then have "insert_f f d \<noteq> f" using assms(1) by auto
  then show ?thesis
    using l insert_f_empty_bit0 [OF assms(1) p] by simp
qed

text \<open>At a filter of one byte and five hash functions after \<^verbatim>\<open>clear()\<close>.\<close>

theorem insert_on_empty_filter_grows_witness:
  "vData (clear \<lparr>vData = [0x08], nHashFuncs = 5, nTweak = 0, nFlags = 0\<rparr>) = [] \<and>
   length (vData (insert_f (clear \<lparr>vData = [0x08], nHashFuncs = 5, nTweak = 0, nFlags = 0\<rparr>)
                            test_a)) = 1 \<and>
   bit_set (vData (insert_f (clear \<lparr>vData = [0x08], nHashFuncs = 5, nTweak = 0, nFlags = 0\<rparr>)
                            test_a)) 0"
  using insert_on_empty_filter_grows
          [of "clear \<lparr>vData = [0x08], nHashFuncs = 5, nTweak = 0, nFlags = 0\<rparr>" test_a]
  by (simp add: clear_def)

section \<open>C5: create with an element count that is not positive\<close>

text \<open>
  C5 says that \<^verbatim>\<open>create\<close> fails for every element count that is 0 or negative. For
  \<^verbatim>\<open>create(-5, 0.01)\<close> it returns a Filter, an empty one.
\<close>

theorem create_negative_count_counterexample:
  "create (- 5) (1 / 100) None None =
     Inr \<lparr>vData = [], nHashFuncs = 1, nTweak = 0, nFlags = 0\<rparr>"
  using create_negative [of "- 5" "1 / 100" None None]
  by (simp add: or_default_def BLOOM_UPDATE_NONE_def)

text \<open>
  C5 (amended): \<^verbatim>\<open>create\<close> fails with a TypeError, raised by the constructor for the
  hash-function count \<^verbatim>\<open>NaN\<close>, when the element count is 0. For a negative element count
  and a false-positive rate in (0,1) it raises nothing and returns a Filter with empty
  \<^verbatim>\<open>vData\<close> and one hash function.
\<close>

theorem create_nonpositive_count:
  "create 0 p t g =
     Inl (TypeError ''Data object should include number of hash functions nHashFuncs'') \<and>
   (e < 0 \<and> 0 < p \<and> p < 1 \<longrightarrow>
      create e p t g = Inr \<lparr>vData = [], nHashFuncs = 1, nTweak = or_default t 0,
                             nFlags = or_default g BLOOM_UPDATE_NONE\<rparr>)"
  using create_zero [of p t g] create_negative [of e p t g] by blast

theorem create_nonpositive_count_witness:
  "create 0 (1 / 2) None None =
     Inl (TypeError ''Data object should include number of hash functions nHashFuncs'') \<and>
   create (- 1) (1 / 2) (Some 7) (Some 2) =
     Inr \<lparr>vData = [], nHashFuncs = 1, nTweak = 7, nFlags = 2\<rparr>"
  using create_nonpositive_count [of "1 / 2" None None "- 1"]
        create_nonpositive_count [of "1 / 2" "Some 7" "Some 2" "- 1"]
  by (simp add: or_default_def)

section \<open>C6: no false negatives\<close>

text \<open>
  C6: on a filter that is not empty, \<^verbatim>\<open>contains(x)\<close> is true right after \<^verbatim>\<open>insert(x)\<close>, and
  stays true after any further sequence of inserts \<open>ys\<close>.
\<close>

theorem membership_soundness:
  assumes "vData f \<noteq> []"
  shows "contains (insert_f f x) x \<and> contains (foldl insert_f (insert_f f x) ys) x"
proof
  show here: "contains (insert_f f x) x"
    by (rule contains_insert_f [OF assms])
  show "contains (foldl insert_f (insert_f f x) ys) x"
    by (rule contains_foldl [OF insert_f_nonempty [OF assms] here])
qed

theorem membership_soundness_witness:
  "vData \<lparr>vData = [0, 0, 0], nHashFuncs = 5, nTweak = 0, nFlags = 1\<rparr> \<noteq> [] \<and>
   contains (insert_f \<lparr>vData = [0, 0, 0], nHashFuncs = 5, nTweak = 0, nFlags = 1\<rparr> test_a)
     test_a \<and>
   contains (foldl insert_f
               (insert_f \<lparr>vData = [0, 0, 0], nHashFuncs = 5, nTweak = 0, nFlags = 1\<rparr> test_a)
               [test_c, test_d]) test_a"
  using membership_soundness
    [of "\<lparr>vData = [0, 0, 0], nHashFuncs = 5, nTweak = 0, nFlags = 1\<rparr>" test_a
        "[test_c, test_d]"]
  by simp

section \<open>C7: the empty filter\<close>

text \<open>
  C7: after \<^verbatim>\<open>clear()\<close>, \<^verbatim>\<open>contains\<close> is false for every buffer; and on a filter whose
  \<^verbatim>\<open>vData\<close> is empty \<^verbatim>\<open>isRelevantAndUpdate\<close> returns false for every transaction and leaves
  the filter as it was.
\<close>

theorem empty_filter_law:
  "contains (clear f) x = False \<and>
   isRelevantAndUpdate (clear f) (Some tx) = (Inr False, clear f) \<and>
   (vData f = [] \<longrightarrow> isRelevantAndUpdate f (Some tx) = (Inr False, f))"
  by (simp add: contains_def clear_def isRelevantAndUpdate_def)

theorem empty_filter_law_witness:
  "vData (clear fx_filter) = [] \<and>
   contains (clear fx_filter) fx_pubkey = False \<and>
   isRelevantAndUpdate (clear fx_filter) (Some fx_tx) = (Inr False, clear fx_filter)"
  using empty_filter_law [of "clear fx_filter" fx_pubkey fx_tx]
  by (simp add: clear_def)

section \<open>C8: inserting twice\<close>

text \<open>
  C8 says that a second \<^verbatim>\<open>insert(x)\<close> leaves \<^verbatim>\<open>vData\<close> as the first one left it, in every
  filter state. On the empty filter with one hash function and \<open>x\<close> the single byte 0,
  the first insert leaves \<open>[0x01]\<close> (the missing guard of C4) and the second \<open>[0x81]\<close>;
  \<^verbatim>\<open>contains(x)\<close> is false after the first and true after the second.
\<close>

theorem double_insert_on_empty_filter:
  "vData (insert_f (clear \<lparr>vData = [0], nHashFuncs = 1, nTweak = 0, nFlags = 0\<rparr>) [0x00])
     = [0x01] \<and>
   vData (insert_f (insert_f (clear \<lparr>vData = [0], nHashFuncs = 1, nTweak = 0, nFlags = 0\<rparr>)
                      [0x00]) [0x00])
     = [0x81] \<and>
   \<not> contains (insert_f (clear \<lparr>vData = [0], nHashFuncs = 1, nTweak = 0, nFlags = 0\<rparr>) [0x00])
        [0x00] \<and>
   contains (insert_f (insert_f (clear \<lparr>vData = [0], nHashFuncs = 1, nTweak = 0, nFlags = 0\<rparr>)
                        [0x00]) [0x00]) [0x00]"
proof -
  let ?e = "clear \<lparr>vData = [0], nHashFuncs = 1, nTweak = 0, nFlags = 0\<rparr>"
  have h: "MurmurHash3 0 [0x00] = 0x514e28b7"
    by (simp add: murmur_eval)
  have i1: "insert_f ?e [0x00] = \<lparr>vData = [0x01], nHashFuncs = 1, nTweak = 0, nFlags = 0\<rparr>"
    by (simp add: clear_def insert_eval hash_eval)
  have i2: "insert_f \<lparr>vData = [0x01], nHashFuncs = 1, nTweak = 0, nFlags = 0\<rparr> [0x00]
              = \<lparr>vData = [0x81], nHashFuncs = 1, nTweak = 0, nFlags = 0\<rparr>"
    by (simp add: insert_eval hash_eval h)
  have c1: "\<not> contains \<lparr>vData = [0x01], nHashFuncs = 1, nTweak = 0, nFlags = 0\<rparr> [0x00]"
    by (simp add: contains_eval hash_eval h)
  have c2: "contains \<lparr>vData = [0x81], nHashFuncs = 1, nTweak = 0, nFlags = 0\<rparr> [0x00]"
    by (simp add: contains_eval hash_eval h)
  show ?thesis
    unfolding i1 i2 using c1 c2 by simp
qed

section \<open>C9: no filter without hash functions\<close>

lemma fromBuffer_zero_count:
  assumes "length v = unat len"
  shows "fromBuffer (len # v @ [0, 0, 0, 0, t0, t1, t2, t3, fl] @ rest) =
     Inl (TypeError ''Data object should include number of hash functions nHashFuncs'')"
  unfolding fromBuffer_def transform_ok [OF assms]
  by (simp add: new_Filter_def)

text \<open>A buffer that stops short after a zero count is rejected by the reader, a complete
  one by the constructor.\<close>

lemma fromBuffer_zero_count_rejected:
  assumes "length v = unat len"
  shows "\<exists>err. fromBuffer (len # v @ [0, 0, 0, 0] @ rest) = Inl err"
proof -
  let ?br3 = "\<lparr>buf = len # v @ [0, 0, 0, 0] @ rest, pos = Suc (length v) + 4\<rparr>"
  show ?thesis
  proof (cases "readUInt32LE ?br3")
    case (Inl err)
    then show ?thesis
      unfolding fromBuffer_def transform_count [OF assms] by simp
  next
    case (Inr r)
    obtain nt br4 where r: "r = (nt, br4)" by (cases r)
    show ?thesis
    proof (cases "readUInt8 br4")
      case (Inl err)
      then show ?thesis
        unfolding fromBuffer_def transform_count [OF assms] using Inr r by simp
    next
      case (Inr q)
      obtain nf br5 where q: "q = (nf, br5)" by (cases q)
      show ?thesis
        unfolding fromBuffer_def transform_count [OF assms]
        using \<open>readUInt32LE ?br3 = Inr r\<close> r Inr q by (simp add: new_Filter_def)
    qed
  qed
qed

lemma fromBuffer_Inr: "fromBuffer b = Inr f \<Longrightarrow> nHashFuncs f \<noteq> 0"
  by (auto simp: fromBuffer_def bind_e_eq_Inr dest: new_Filter_Inr)

lemma fromObject_Inr: "fromObject d = Inr f \<Longrightarrow> nHashFuncs f \<noteq> 0"
  by (auto simp: fromObject_def dest: new_Filter_Inr)

lemma create_Inr: "create e p t g = Inr f \<Longrightarrow> nHashFuncs f \<noteq> 0"
  by (auto simp: create_def Let_def dest: new_Filter_Inr)

text \<open>The test \<^verbatim>\<open>correctly deserialize a buffer\<close> decodes this buffer.\<close>

lemma test_deserialize:
  "fromBuffer [0x03, 0x61, 0x4e, 0x9b, 0x05, 0x00, 0x00, 0x00, 0x00, 0x00, 0x00, 0x00, 0x01]
     = Inr \<lparr>vData = [0x61, 0x4e, 0x9b], nHashFuncs = 5, nTweak = 0, nFlags = 1\<rparr>"
proof -
  have "length [0x61, 0x4e, 0x9b :: byte] = unat (0x03 :: byte)" by simp
  from transform_ok [OF this, where ?a0.0 = 5 and ?a1.0 = 0 and ?a2.0 = 0 and ?a3.0 = 0
      and ?t0.0 = 0 and ?t1.0 = 0 and ?t2.0 = 0 and ?t3.0 = 0 and fl = 1 and rest = "[]"]
  show ?thesis
    by (simp add: fromBuffer_def new_Filter_def or_default_def)
qed

text \<open>
  C9: \<^verbatim>\<open>fromBuffer\<close> rejects every buffer whose hash-function count field is 0 (a
  length byte, that many data bytes, four zero bytes, and anything after); when the tweak
  and the flags are there too, the error is the constructor's TypeError. No Filter that
  \<^verbatim>\<open>fromBuffer\<close>, the constructor, \<^verbatim>\<open>fromObject\<close> or \<^verbatim>\<open>create\<close> returns has \<^verbatim>\<open>nHashFuncs\<close>
  equal to 0.
\<close>

theorem no_filter_without_hash_functions:
  "(length v = unat len \<longrightarrow>
      (\<exists>err. fromBuffer (len # v @ [0, 0, 0, 0] @ rest) = Inl err)) \<and>
   (length v = unat len \<longrightarrow>
      fromBuffer (len # v @ [0, 0, 0, 0, t0, t1, t2, t3, fl] @ rest) =
        Inl (TypeError ''Data object should include number of hash functions nHashFuncs'')) \<and>
   (fromBuffer b = Inr f1 \<longrightarrow> nHashFuncs f1 \<noteq> 0) \<and>
   (new_Filter arg = Inr f2 \<longrightarrow> nHashFuncs f2 \<noteq> 0) \<and>
   (fromObject d = Inr f3 \<longrightarrow> nHashFuncs f3 \<noteq> 0) \<and>
   (create e p t g = Inr f4 \<longrightarrow> nHashFuncs f4 \<noteq> 0)"
  using fromBuffer_zero_count_rejected [of v len rest]
    fromBuffer_zero_count [of v len t0 t1 t2 t3 fl rest] fromBuffer_Inr [of b f1]
    new_Filter_Inr [of arg f2] fromObject_Inr [of d f3] create_Inr [of e p t g f4]
  by blast

theorem no_filter_without_hash_functions_witness:
  "fromBuffer [0x03, 0x61, 0x4e, 0x9b, 0x00, 0x00, 0x00, 0x00, 0x00, 0x00, 0x00, 0x00, 0x01]
     = Inl (TypeError ''Data object should include number of hash functions nHashFuncs'') \<and>
   fromBuffer [0x03, 0x61, 0x4e, 0x9b, 0x05, 0x00, 0x00, 0x00, 0x00, 0x00, 0x00, 0x00, 0x01]
     = Inr \<lparr>vData = [0x61, 0x4e, 0x9b], nHashFuncs = 5, nTweak = 0, nFlags = 1\<rparr> \<and>
   nHashFuncs \<lparr>vData = [0x61, 0x4e, 0x9b], nHashFuncs = 5, nTweak = 0, nFlags = 1\<rparr> \<noteq> 0"
  using no_filter_without_hash_functions
    [where v = "[0x61, 0x4e, 0x9b]" and len = 3 and ?t0.0 = 0 and ?t1.0 = 0 and ?t2.0 = 0
       and ?t3.0 = 0 and fl = 1 and rest = "[]"
       and b = "[0x03, 0x61, 0x4e, 0x9b, 0x05, 0x00, 0x00, 0x00, 0x00, 0x00, 0x00, 0x00, 0x01]"
       and ?f1.0 = "\<lparr>vData = [0x61, 0x4e, 0x9b], nHashFuncs = 5, nTweak = 0, nFlags = 1\<rparr>"]
    test_deserialize
  by simp

section \<open>C10: toJSON\<close>

text \<open>
  C10: \<^verbatim>\<open>toJSON()\<close> returns \<^verbatim>\<open>undefined\<close> for every Filter; the JSON text it builds, which is
  never empty, is dropped.
\<close>

theorem toJSON_undefined:
  "toJSON f = None \<and> JSON_stringify (toObject f) \<noteq> []"
  by (simp add: toJSON_def JSON_stringify_def)

end
